theory Spec2Isabelle
  imports Main "HOL-Library.Word" "HOL-Library.Sublist"
begin

section \<open>JavaScript values used by the MQTT adapter (mqtt/mqtt.js)\<close>

text \<open>
  A JavaScript string is a sequence of UTF-16 code units: \<open>length\<close>, \<open>split\<close>, \<open>includes\<close> and
  the regular expression engine (without the \<open>u\<close> flag) all work on code units. A Buffer is a
  sequence of bytes.
\<close>

type_synonym code_unit = "16 word"
type_synonym jsstring = "code_unit list"
type_synonym bytes = "8 word list"

abbreviation cu :: "char \<Rightarrow> code_unit" where
  "cu \<equiv> of_char"

definition js :: "string \<Rightarrow> jsstring" where
  "js s = map cu s"

datatype jsval = Undefined | Null | JStr jsstring | JNum int

text \<open>Truthiness of a value, as \<open>||\<close> and \<open>!\<close> test it.\<close>

fun truthy :: "jsval \<Rightarrow> bool" where
  "truthy Undefined = False"
| "truthy Null = False"
| "truthy (JStr s) = (s \<noteq> [])"
| "truthy (JNum n) = (n \<noteq> 0)"

text \<open>\<open>s.split(sep)\<close> for a separator of one code unit; the empty string gives \<open>['']\<close>.\<close>

fun split :: "'a \<Rightarrow> 'a list \<Rightarrow> 'a list list" where
  "split sep [] = [[]]"
| "split sep (c # cs) =
     (if c = sep then [] # split sep cs
      else (case split sep cs of [] \<Rightarrow> [[c]] | s # ss \<Rightarrow> (c # s) # ss))"

text \<open>\<open>xs.join(sep)\<close>; the empty array gives \<open>''\<close>.\<close>

fun join :: "'a list \<Rightarrow> 'a list list \<Rightarrow> 'a list" where
  "join sep [] = []"
| "join sep [s] = s"
| "join sep (s # t # ss) = s @ sep @ join sep (t # ss)"

text \<open>\<open>s.replace(/\./g, '/')\<close>: every full stop becomes a slash.\<close>

definition replace_dots :: "jsstring \<Rightarrow> jsstring" where
  "replace_dots s = map (\<lambda>c. if c = cu CHR ''.'' then cu CHR ''/'' else c) s"

section \<open>The topic parser\<close>

text \<open>
  \<open>parseTopic\<close> runs \<open>/^channels\/(.+?)\/messages\/?.*$/\<close> on the topic and returns the match,
  of which the callers read group 1. Without the \<open>s\<close> flag the dot matches every code unit
  except the four line terminators; without the \<open>m\<close> flag \<open>$\<close> is the end of the input.
\<close>

definition is_line_terminator :: "code_unit \<Rightarrow> bool" where
  "is_line_terminator c = (c = 0x000A \<or> c = 0x000D \<or> c = 0x2028 \<or> c = 0x2029)"

text \<open>\<open>.*$\<close>: the greedy dot-star reaches the end of the input or stops at a line terminator.\<close>

fun dotstar_end :: "jsstring \<Rightarrow> bool" where
  "dotstar_end [] = True"
| "dotstar_end (c # cs) = (\<not> is_line_terminator c \<and> dotstar_end cs)"

text \<open>\<open>\/?.*$\<close>: the optional slash is tried first, then skipped on backtracking.\<close>

fun optslash_dotstar_end :: "jsstring \<Rightarrow> bool" where
  "optslash_dotstar_end [] = dotstar_end []"
| "optslash_dotstar_end (c # cs) =
     (if c = cu CHR ''/'' then dotstar_end cs \<or> dotstar_end (c # cs) else dotstar_end (c # cs))"

text \<open>\<open>\/messages\/?.*$\<close>, the continuation of the group.\<close>

definition match_tail :: "jsstring \<Rightarrow> bool" where
  "match_tail s = (prefix (js ''/messages'') s \<and> optslash_dotstar_end (drop 9 s))"

text \<open>
  \<open>(.+?)\<close>: the lazy group has consumed \<open>acc\<close> (at least one code unit); it tries the
  continuation first and takes one more code unit only when the continuation fails.
\<close>

fun lazy_group :: "jsstring \<Rightarrow> jsstring \<Rightarrow> jsstring option" where
  "lazy_group acc [] = (if match_tail [] then Some acc else None)"
| "lazy_group acc (c # cs) =
     (if match_tail (c # cs) then Some acc
      else if is_line_terminator c then None
      else lazy_group (acc @ [c]) cs)"

definition parseTopic :: "jsstring \<Rightarrow> jsstring option" where
  "parseTopic t =
     (if prefix (js ''channels/'') t then
        (case drop 9 t of
           [] \<Rightarrow> None
         | c # cs \<Rightarrow> if is_line_terminator c then None else lazy_group [c] cs)
      else None)"

section \<open>Packets, clients, the things service and effects\<close>

record packet =
  cmd :: jsstring
  qos :: nat
  topic :: jsstring
  payload :: bytes
  retain :: bool

record client =
  client_id :: jsval
  thingId :: jsval
  password :: jsval

record accessReq =
  token :: jsval
  chanID :: jsstring

text \<open>The message with the single field \<open>value\<close> that the things service takes and returns.\<close>

record identity =
  ivalue :: jsstring

record error =
  message :: jsstring

record RawMessage =
  publisher :: jsval
  channel :: jsstring
  subtopic :: jsstring
  protocol :: jsstring
  payload_of :: bytes

datatype log_level = Warn | Info

text \<open>
  What a handler does to the outside, in the order it does it: log lines, calls to the things
  service, publishes on NATS, the callback handed in by the broker, commands sent to the
  event stream and packets published through the broker. The things service and the event
  stream answer through a callback that runs once, later; a run below is one call of a
  handler together with the callbacks it has registered, and the answer of the service is a
  parameter of the run (\<open>Inl\<close> when the callback gets an error).
\<close>

datatype effect =
    Log log_level jsstring "jsval list"
  | CanAccess accessReq
  | Identify identity
  | NatsPublish jsstring bytes
  | PublishCb nat
  | Acknowledge "error option" bool
  | XAdd jsstring jsstring "(jsstring \<times> jsval) list"
  | AedesPublish packet

section \<open>authorizePublish\<close>

text \<open>\<open>packet.topic.split('/').slice(baseLength).join('.').split('.').filter(isEmpty)\<close>\<close>

definition isEmpty :: "jsstring \<Rightarrow> bool" where
  "isEmpty v = (v \<noteq> [])"

definition baseLength :: nat where
  "baseLength = 3"

definition elements :: "jsstring \<Rightarrow> jsstring list" where
  "elements t =
     filter isEmpty
       (split (cu CHR ''.'') (join (js ''.'') (drop baseLength (split (cu CHR ''/'') t))))"

text \<open>The loop over \<open>elements\<close>: true when some iteration takes the early return.\<close>

fun invalid_subtopic :: "jsstring list \<Rightarrow> bool" where
  "invalid_subtopic [] = False"
| "invalid_subtopic (e # es) =
     (if length e > 1 \<and> (cu CHR ''*'' \<in> set e \<or> cu CHR ''>'' \<in> set e) then True
      else invalid_subtopic es)"

definition channelTopic :: "jsstring \<Rightarrow> jsstring list \<Rightarrow> jsstring" where
  "channelTopic channelId els =
     (let baseTopic = js ''channel.'' @ channelId
      in if length els \<noteq> 0 then baseTopic @ js ''.'' @ join (js ''.'') els else baseTopic)"

text \<open>
  The callback \<open>onAuthorize\<close>, run with the answer of the things service. The envelope is
  encoded by the protobuf library, taken here as the parameter \<open>encode\<close>.
\<close>

definition onAuthorize ::
  "(RawMessage \<Rightarrow> bytes) \<Rightarrow> client \<Rightarrow> packet \<Rightarrow> jsstring \<Rightarrow> jsstring list \<Rightarrow>
   error + identity \<Rightarrow> effect list" where
  "onAuthorize encode c pk channelId els answer =
     (case answer of
        Inr res \<Rightarrow>
          [Log Info (js ''authorized publish'') [],
           NatsPublish (channelTopic channelId els)
             (encode \<lparr>publisher = thingId c, channel = channelId,
                      subtopic = join (js ''.'') els, protocol = js ''mqtt'',
                      payload_of = payload pk\<rparr>),
           PublishCb 0]
      | Inl err \<Rightarrow>
          [Log Warn (js ''unauthorized publish: %s'') [JStr (message err)],
           PublishCb 4])"

definition authorizePublish ::
  "(RawMessage \<Rightarrow> bytes) \<Rightarrow> (accessReq \<Rightarrow> error + identity) \<Rightarrow> client \<Rightarrow> packet \<Rightarrow>
   effect list" where
  "authorizePublish encode things_CanAccess c pk =
     (case parseTopic (topic pk) of
        None \<Rightarrow> [Log Warn (js ''unknown topic'') [], PublishCb 4]
      | Some channelId \<Rightarrow>
          (let req = \<lparr>token = password c, chanID = channelId\<rparr>;
               els = elements (topic pk)
           in if invalid_subtopic els
              then [Log Warn (js ''invalid subtopic'') [], PublishCb 4]
              else CanAccess req # onAuthorize encode c pk channelId els (things_CanAccess req)))"

text \<open>The bus publishes of a run, in order.\<close>

fun bus_publishes :: "effect list \<Rightarrow> (jsstring \<times> bytes) list" where
  "bus_publishes [] = []"
| "bus_publishes (NatsPublish subject data # es) = (subject, data) # bus_publishes es"
| "bus_publishes (_ # es) = bus_publishes es"

section \<open>The handler of the subscription on \<open>channel.>\<close>\<close>

text \<open>
  The MQTT topic the handler builds from the channel and subtopic of a decoded envelope
  (the local \<open>subtopic\<close> and the \<open>topic\<close> field of the packet).
\<close>

definition mqtt_topic :: "jsstring \<Rightarrow> jsstring \<Rightarrow> jsstring" where
  "mqtt_topic ch sub =
     (let suffix = (if sub \<noteq> [] then js ''/'' @ replace_dots sub else [])
      in js ''channels/'' @ ch @ js ''/messages'' @ suffix)"

text \<open>
  The protobuf decoder is the parameter \<open>decode\<close>: it throws (\<open>Inl\<close>) or returns a value,
  which the handler tests for truthiness (\<open>None\<close> stands for a falsy result).
\<close>

definition on_message ::
  "(bytes \<Rightarrow> error + RawMessage option) \<Rightarrow> bytes \<Rightarrow> error + effect list" where
  "on_message decode msg =
     (case decode msg of
        Inl exn \<Rightarrow> Inl exn
      | Inr None \<Rightarrow> Inr []
      | Inr (Some m) \<Rightarrow>
          (if protocol m \<noteq> js ''mqtt''
           then Inr [AedesPublish \<lparr>cmd = js ''publish'', qos = 2,
                                   topic = mqtt_topic (channel m) (subtopic m),
                                   payload = payload_of m, retain = False\<rparr>]
           else Inr []))"

section \<open>Authentication, disconnection and the event stream\<close>

record config =
  instance_id :: jsstring
  event_stream :: jsstring

text \<open>The two entries of \<open>config\<close> the handlers read; the argument is \<open>MF_MQTT_INSTANCE_ID\<close>.\<close>

definition mk_config :: "jsstring option \<Rightarrow> config" where
  "mk_config env_instance_id =
     \<lparr>instance_id = (case env_instance_id of None \<Rightarrow> [] | Some v \<Rightarrow> v),
      event_stream = js ''mainflux.mqtt''\<rparr>"

text \<open>
  \<open>Math.round((new Date()).getTime() / 1000)\<close> on the clock \<open>now\<close>, in milliseconds. A time
  value is an integer of magnitude at most 8.64e15, so the quotient is at least 0.001 away
  from a half unless it is one exactly, which is more than the rounding of the division can
  move it; \<open>Math.round\<close> takes halves upwards. The result is the integer below.
\<close>

definition round_seconds :: "int \<Rightarrow> int" where
  "round_seconds now = (now + 500) div 1000"

text \<open>The reply of the stream to \<open>xadd\<close> is the parameter \<open>xadd_reply\<close>.\<close>

definition publishConnEvent ::
  "config \<Rightarrow> int \<Rightarrow> (jsstring \<Rightarrow> (jsstring \<times> jsval) list \<Rightarrow> error option) \<Rightarrow>
   jsval \<Rightarrow> jsstring \<Rightarrow> effect list" where
  "publishConnEvent cfg now xadd_reply ident ty =
     (let kvs = [(js ''thing_id'', ident),
                 (js ''timestamp'', JNum (round_seconds now)),
                 (js ''event_type'', JStr ty),
                 (js ''instance'', JStr (instance_id cfg))]
      in XAdd (event_stream cfg) (js ''*'') kvs #
         (case xadd_reply (event_stream cfg) kvs of
            None \<Rightarrow> []
          | Some err \<Rightarrow> [Log Warn (js ''event publish failed: %s'') [JStr (message err)]]))"

text \<open>
  The password of a CONNECT is a Buffer or absent; \<open>(password || '').toString()\<close> decodes it,
  and \<open>Some s\<close> is a Buffer that decodes to \<open>s\<close>. The user name is not read.
\<close>

definition authenticate ::
  "config \<Rightarrow> int \<Rightarrow> (jsstring \<Rightarrow> (jsstring \<times> jsval) list \<Rightarrow> error option) \<Rightarrow>
   (identity \<Rightarrow> error + identity) \<Rightarrow> client \<Rightarrow> jsval \<Rightarrow> jsstring option \<Rightarrow>
   client \<times> effect list" where
  "authenticate cfg now xadd_reply things_identify c username pw =
     (let pass = (case pw of None \<Rightarrow> [] | Some s \<Rightarrow> s);
          ident = \<lparr>ivalue = pass\<rparr>
      in case things_identify ident of
           Inr res \<Rightarrow>
             (let c1 = c\<lparr>thingId := JStr (ivalue res)\<rparr>;
                  c2 = c1\<lparr>client_id := (if truthy (client_id c1) then client_id c1 else thingId c1)\<rparr>;
                  c3 = c2\<lparr>password := JStr pass\<rparr>
              in (c3, Identify ident # Acknowledge None True #
                      publishConnEvent cfg now xadd_reply (thingId c3) (js ''connect'')))
         | Inl err \<Rightarrow>
             (c, [Identify ident,
                  Log Warn (js ''failed to authenticate client with key %s'') [JStr pass],
                  Acknowledge (Some err) False]))"

definition clientDisconnect ::
  "config \<Rightarrow> int \<Rightarrow> (jsstring \<Rightarrow> (jsstring \<times> jsval) list \<Rightarrow> error option) \<Rightarrow>
   client \<Rightarrow> client \<times> effect list" where
  "clientDisconnect cfg now xadd_reply c =
     (let c1 = c\<lparr>password := Null\<rparr>
      in (c1, Log Info (js ''disconnect client %s'') [client_id c] #
              publishConnEvent cfg now xadd_reply (thingId c1) (js ''disconnect'')))"

text \<open>The commands sent to the event stream by a run, in order.\<close>

fun stream_records :: "effect list \<Rightarrow> (jsstring \<times> jsstring \<times> (jsstring \<times> jsval) list) list" where
  "stream_records [] = []"
| "stream_records (XAdd stream ident kvs # es) = (stream, ident, kvs) # stream_records es"
| "stream_records (_ # es) = stream_records es"

section \<open>The NATS publisher of the WebSocket adapter (package nats)\<close>

text \<open>Go strings are byte sequences; an \<open>error\<close> result is \<open>None\<close> for \<open>nil\<close>.\<close>

record GoRawMessage =
  Channel :: string
  Subtopic :: string
  Publisher :: string
  Protocol :: string
  Payload :: bytes

subsection \<open>The float64 values of a ratio of two counters\<close>

text \<open>
  \<open>Finite m s\<close> is the number \<open>m / 2 ^ s\<close>. The quotient of two integers below \<open>2 ^ 53\<close>, which
  are float64 values themselves, is the nearest number with a significand of 53 bits, ties
  to the even significand; it is neither subnormal nor too large. A zero divisor gives NaN
  for \<open>0 / 0\<close> and the positive infinity otherwise. A comparison with NaN is false.
\<close>

datatype float64 = Finite nat nat | PosInf | NaN

fun f64_ge :: "float64 \<Rightarrow> float64 \<Rightarrow> bool" where
  "f64_ge (Finite m s) (Finite m' s') = (m' * 2 ^ s \<le> m * 2 ^ s')"
| "f64_ge PosInf (Finite m' s') = True"
| "f64_ge PosInf PosInf = True"
| "f64_ge _ _ = False"

text \<open>The least \<open>s\<close> from \<open>s0\<close> on with \<open>2 ^ 52 \<le> a * 2 ^ s / b\<close>, which puts the quotient in 53 bits.\<close>

function binade_scale :: "nat \<Rightarrow> nat \<Rightarrow> nat \<Rightarrow> nat" where
  "binade_scale a b s =
     (if a = 0 \<or> 2 ^ 52 * b \<le> a * 2 ^ s then s else binade_scale a b (s + 1))"
  by pat_completeness auto
termination
proof (relation "measure (\<lambda>(a, b, s). 2 ^ 52 * b - a * 2 ^ s)")
  show "wf (measure (\<lambda>(a, b, s). 2 ^ 52 * b - a * 2 ^ s))" by simp
next
  fix a b s :: nat
  assume "\<not> (a = 0 \<or> 2 ^ 52 * b \<le> a * 2 ^ s)"
  then have "a * 2 ^ s < a * 2 ^ (s + 1)" and "a * 2 ^ s < 2 ^ 52 * b" by auto
  then have "2 ^ 52 * b - a * 2 ^ (s + 1) < 2 ^ 52 * b - a * 2 ^ s"
    by (rule diff_less_mono2)
  then show "((a, b, s + 1), (a, b, s)) \<in> measure (\<lambda>(a, b, s). 2 ^ 52 * b - a * 2 ^ s)"
    by simp
qed

declare binade_scale.simps [simp del]

definition round_half_even :: "nat \<Rightarrow> nat \<Rightarrow> nat" where
  "round_half_even n b =
     (let k = n div b; r = n mod b
      in if 2 * r < b then k else if b < 2 * r then k + 1 else if even k then k else k + 1)"

definition f64_div :: "nat \<Rightarrow> nat \<Rightarrow> float64" where
  "f64_div a b =
     (if b = 0 then (if a = 0 then NaN else PosInf)
      else if a = 0 then Finite 0 0
      else (let s = binade_scale a b 0 in Finite (round_half_even (a * 2 ^ s) b) s))"

subsection \<open>The publisher\<close>

text \<open>The counters that the breaker library hands to \<open>ReadyToTrip\<close>, all of type uint32.\<close>

record Counts =
  Requests :: "32 word"
  TotalSuccesses :: "32 word"
  TotalFailures :: "32 word"
  ConsecutiveSuccesses :: "32 word"
  ConsecutiveFailures :: "32 word"

text \<open>The two fields of the settings of a breaker that \<open>New\<close> fills in.\<close>

record Settings =
  Name :: string
  ReadyToTrip :: "Counts \<Rightarrow> bool"

definition prefix_channel :: string where
  "prefix_channel = ''channel''"

definition maxFailedReqs :: "32 word" where
  "maxFailedReqs = 3"

text \<open>The constant 0.6 as a float64: the nearest one is \<open>5404319552844595 / 2 ^ 53\<close>.\<close>

definition maxFailureRatio :: float64 where
  "maxFailureRatio = Finite 5404319552844595 53"

text \<open>
  The publisher holds the connection and the breaker. The connection is its \<open>Publish\<close>
  method; the breaker is a value of the breaker library, whose type is left open, and the
  constructor of the library is the parameter \<open>NewCircuitBreaker\<close> of \<open>New\<close>.
\<close>

record 'cb natsPubSub =
  nc :: "string \<Rightarrow> bytes \<Rightarrow> string option"
  cb :: 'cb

definition st :: Settings where
  "st =
     \<lparr>Name = ''NATS'',
      ReadyToTrip = (\<lambda>counts.
        let fr = f64_div (unat (TotalFailures counts)) (unat (Requests counts))
        in Requests counts \<ge> maxFailedReqs \<and> f64_ge fr maxFailureRatio)\<rparr>"

definition New ::
  "(Settings \<Rightarrow> 'cb) \<Rightarrow> (string \<Rightarrow> bytes \<Rightarrow> string option) \<Rightarrow> 'cb natsPubSub" where
  "New NewCircuitBreaker conn = \<lparr>nc = conn, cb = NewCircuitBreaker st\<rparr>"

definition fmtSubject :: "string \<Rightarrow> string \<Rightarrow> string" where
  "fmtSubject chanID' subtopic' =
     (let subject = prefix_channel @ ''.'' @ chanID'
      in if subtopic' \<noteq> [] then subject @ ''.'' @ subtopic' else subject)"

datatype go_effect = NcPublish string bytes

text \<open>
  \<open>Publish\<close> returns the error and the calls made on the connection; \<open>proto.Marshal\<close> is the
  parameter \<open>marshal\<close>.
\<close>

definition Publish ::
  "(GoRawMessage \<Rightarrow> string + bytes) \<Rightarrow> 'cb natsPubSub \<Rightarrow> GoRawMessage \<Rightarrow>
   string option \<times> go_effect list" where
  "Publish marshal pubsub msg =
     (case marshal msg of
        Inl err \<Rightarrow> (Some err, [])
      | Inr data \<Rightarrow>
          (let subject = fmtSubject (Channel msg) (Subtopic msg)
           in (nc pubsub subject data, [NcPublish subject data])))"

text \<open>A run of calls on the same publisher: the errors returned and the calls on the connection.\<close>

fun Publish_all ::
  "(GoRawMessage \<Rightarrow> string + bytes) \<Rightarrow> 'cb natsPubSub \<Rightarrow> GoRawMessage list \<Rightarrow>
   string option list \<times> go_effect list" where
  "Publish_all marshal pubsub [] = ([], [])"
| "Publish_all marshal pubsub (m # ms) =
     (case Publish marshal pubsub m of (r, es) \<Rightarrow>
        (case Publish_all marshal pubsub ms of (rs, es') \<Rightarrow> (r # rs, es @ es')))"

section \<open>The words of the specification\<close>

text \<open>A channel id: a non-empty string without \<open>/\<close> or \<open>.\<close>.\<close>

definition spec_channel_id :: "jsstring \<Rightarrow> bool" where
  "spec_channel_id ch = (ch \<noteq> [] \<and> cu CHR ''/'' \<notin> set ch \<and> cu CHR ''.'' \<notin> set ch)"

text \<open>
  The accepted shape, \<open>channels/{id}/messages\<close> or \<open>channels/{id}/messages/{seg1}/{seg2}/\<dots>\<close>:
  as the id has no slash, it is the second of the pieces between slashes.
\<close>

definition spec_topic_shape :: "jsstring \<Rightarrow> bool" where
  "spec_topic_shape t =
     (case split (cu CHR ''/'') t of
        a # i # m # segs \<Rightarrow> a = js ''channels'' \<and> spec_channel_id i \<and> m = js ''messages''
      | _ \<Rightarrow> False)"

text \<open>A subtopic segment matching \<open>[^.*>]+\<close>.\<close>

definition spec_segment :: "jsstring \<Rightarrow> bool" where
  "spec_segment s =
     (s \<noteq> [] \<and> cu CHR ''.'' \<notin> set s \<and> cu CHR ''*'' \<notin> set s \<and> cu CHR ''>'' \<notin> set s)"

text \<open>A segment that in addition has no slash and no line terminator.\<close>

definition plain_segment :: "jsstring \<Rightarrow> bool" where
  "plain_segment s = (spec_segment s \<and> cu CHR ''/'' \<notin> set s \<and> dotstar_end s)"

section \<open>Inputs for the examples\<close>

definition thing1_client :: client where
  "thing1_client =
     \<lparr>client_id = JStr (js ''dev''), thingId = JStr (js ''thing-1''), password = JStr (js ''abc'')\<rparr>"

definition publish_packet :: "jsstring \<Rightarrow> packet" where
  "publish_packet t = \<lparr>cmd = js ''publish'', qos = 0, topic = t, payload = [1, 2], retain = False\<rparr>"

definition grant :: "accessReq \<Rightarrow> error + identity" where
  "grant req = Inr \<lparr>ivalue = js ''thing-1''\<rparr>"

definition deny :: "accessReq \<Rightarrow> error + identity" where
  "deny req = Inl \<lparr>message = js ''denied''\<rparr>"

definition identify_ok :: "identity \<Rightarrow> error + identity" where
  "identify_ok ident = Inr \<lparr>ivalue = js ''thing-1''\<rparr>"

definition fresh_client :: client where
  "fresh_client = \<lparr>client_id = Undefined, thingId = Undefined, password = Undefined\<rparr>"

definition no_reply :: "jsstring \<Rightarrow> (jsstring \<times> jsval) list \<Rightarrow> error option" where
  "no_reply stream kvs = None"

definition http_message :: RawMessage where
  "http_message =
     \<lparr>publisher = JStr (js ''thing-7''), channel = js ''ch-1'', subtopic = js ''alpha.beta'',
      protocol = js ''http'', payload_of = [9]\<rparr>"

definition ws_message :: GoRawMessage where
  "ws_message =
     \<lparr>Channel = ''ch-1'', Subtopic = [], Publisher = ''thing-1'', Protocol = ''ws'',
      Payload = [7]\<rparr>"

definition marshal_payload :: "GoRawMessage \<Rightarrow> string + bytes" where
  "marshal_payload m = Inr (Payload m)"

definition closed_connection :: "string \<Rightarrow> bytes \<Rightarrow> string option" where
  "closed_connection subject data = Some ''nats: connection closed''"

lemmas run_defs = authorizePublish_def onAuthorize_def channelTopic_def elements_def
  baseLength_def isEmpty_def parseTopic_def match_tail_def is_line_terminator_def js_def
  thing1_client_def publish_packet_def grant_def deny_def identify_ok_def fresh_client_def
  no_reply_def

section \<open>Splitting and joining\<close>

lemma split_not_Nil: "split sep xs \<noteq> []"
  by (induction xs) (auto split: list.splits)

lemma split_no_sep: "sep \<notin> set a \<Longrightarrow> split sep a = [a]"
  by (induction a) auto

lemma split_append_sep: "sep \<notin> set a \<Longrightarrow> split sep (a @ sep # b) = a # split sep b"
  by (induction a) (auto split: list.splits)

lemma join_Cons: "segs \<noteq> [] \<Longrightarrow> join sep (s # segs) = s @ sep @ join sep segs"
  by (cases segs) auto

lemma split_join:
  "segs \<noteq> [] \<Longrightarrow> \<forall>s\<in>set segs. sep \<notin> set s \<Longrightarrow> split sep (join [sep] segs) = segs"
proof (induction segs)
  case Nil
  then show ?case by simp
next
  case (Cons s segs)
  show ?case
  proof (cases segs)
    case Nil
    with Cons.prems show ?thesis by (simp add: split_no_sep)
  next
    case (Cons t ts)
    with Cons.IH Cons.prems show ?thesis by (simp add: split_append_sep)
  qed
qed

section \<open>What the regular expression accepts\<close>

lemma dotstar_end_iff: "dotstar_end s \<longleftrightarrow> (\<forall>c\<in>set s. \<not> is_line_terminator c)"
  by (induction s) auto

lemma optslash_iff: "optslash_dotstar_end s = dotstar_end s"
  by (cases s) (auto simp: is_line_terminator_def)

lemma match_tail_iff: "match_tail s \<longleftrightarrow> (\<exists>r. s = js ''/messages'' @ r \<and> dotstar_end r)"
  by (auto simp: match_tail_def optslash_iff prefix_def js_def)


lemma lazy_group_match: "match_tail s \<Longrightarrow> lazy_group acc s = Some acc"
  by (cases s) auto

lemma match_tail_slash: "match_tail (c # cs) \<Longrightarrow> c = cu CHR ''/''"
  by (auto simp: match_tail_def js_def)

lemma lazy_group_accepts:
  "dotstar_end (p @ js ''/messages'' @ r) \<Longrightarrow> lazy_group acc (p @ js ''/messages'' @ r) \<noteq> None"
proof (induction p arbitrary: acc)
  case Nil
  then have "match_tail (js ''/messages'' @ r)"
    by (auto simp: match_tail_iff dotstar_end_iff)
  then show ?case by (simp add: lazy_group_match)
next
  case (Cons c p)
  then show ?case by simp
qed

lemma lazy_group_exact:
  "cu CHR ''/'' \<notin> set p \<Longrightarrow> dotstar_end (p @ js ''/messages'' @ r) \<Longrightarrow>
   lazy_group acc (p @ js ''/messages'' @ r) = Some (acc @ p)"
proof (induction p arbitrary: acc)
  case Nil
  then have "match_tail (js ''/messages'' @ r)"
    by (auto simp: match_tail_iff dotstar_end_iff)
  then show ?case by (simp add: lazy_group_match)
next
  case (Cons c p)
  from Cons.prems have "\<not> match_tail (c # p @ js ''/messages'' @ r)"
    using match_tail_slash by fastforce
  with Cons show ?case by simp
qed

lemma lazy_group_Some:
  "lazy_group acc s = Some g \<Longrightarrow>
   \<exists>p r. g = acc @ p \<and> s = p @ js ''/messages'' @ r \<and> dotstar_end s"
proof (induction s arbitrary: acc)
  case Nil
  then show ?case by (simp add: match_tail_def js_def split: if_splits)
next
  case (Cons c s)
  show ?case
  proof (cases "match_tail (c # s)")
    case True
    with Cons.prems have "g = acc" by simp
    moreover from True obtain r where "c # s = js ''/messages'' @ r" "dotstar_end r"
      by (auto simp: match_tail_iff)
    moreover have "dotstar_end (js ''/messages'')"
      by (simp add: js_def is_line_terminator_def)
    ultimately show ?thesis
      by (metis append_Nil append_Nil2 dotstar_end_iff Un_iff set_append)
  next
    case False
    with Cons.prems have nl: "\<not> is_line_terminator c" and rec: "lazy_group (acc @ [c]) s = Some g"
      by (auto split: if_splits)
    from Cons.IH[OF rec] obtain p r where "g = (acc @ [c]) @ p" "s = p @ js ''/messages'' @ r" "dotstar_end s"
      by blast
    with nl have "g = acc @ (c # p) \<and> c # s = (c # p) @ js ''/messages'' @ r \<and> dotstar_end (c # s)"
      by simp
    then show ?thesis by blast
  qed
qed

lemma dotstar_end_append: "dotstar_end (a @ b) \<longleftrightarrow> dotstar_end a \<and> dotstar_end b"
  by (auto simp: dotstar_end_iff)

lemma dotstar_channels: "dotstar_end (js ''channels/'')"
  by (simp add: js_def is_line_terminator_def)

lemma parseTopic_Some:
  assumes "parseTopic t = Some g"
  shows "g \<noteq> [] \<and> (\<exists>r. t = js ''channels/'' @ g @ js ''/messages'' @ r) \<and> dotstar_end t"
proof -
  from assms obtain u where t: "t = js ''channels/'' @ u"
    by (auto simp: parseTopic_def prefix_def split: if_splits)
  then have d: "drop 9 t = u" by (simp add: js_def)
  from assms t d obtain c cs where u: "u = c # cs" and nl: "\<not> is_line_terminator c"
    and lg: "lazy_group [c] cs = Some g"
    by (auto simp: parseTopic_def split: if_splits list.splits)
  from lazy_group_Some[OF lg] obtain p r where "g = [c] @ p" "cs = p @ js ''/messages'' @ r" "dotstar_end cs"
    by blast
  with t u nl dotstar_channels show ?thesis
    by (auto simp: dotstar_end_append)
qed

lemma parseTopic_accepts:
  assumes "ch \<noteq> []" "dotstar_end (ch @ js ''/messages'' @ r)"
  shows "parseTopic (js ''channels/'' @ ch @ js ''/messages'' @ r) \<noteq> None"
proof -
  from assms(1) obtain c cs where ch: "ch = c # cs" by (cases ch) auto
  have d: "drop 9 (js ''channels/'' @ ch @ js ''/messages'' @ r) = c # cs @ js ''/messages'' @ r"
    by (simp add: js_def ch)
  from assms(2) ch have "\<not> is_line_terminator c" "dotstar_end (cs @ js ''/messages'' @ r)" by auto
  then show ?thesis
    unfolding parseTopic_def d using lazy_group_accepts[of cs r "[c]"]
    by (simp add: prefix_def)
qed

lemma parseTopic_exact:
  assumes "ch \<noteq> []" "cu CHR ''/'' \<notin> set ch" "dotstar_end (ch @ js ''/messages'' @ r)"
  shows "parseTopic (js ''channels/'' @ ch @ js ''/messages'' @ r) = Some ch"
proof -
  from assms(1) obtain c cs where ch: "ch = c # cs" by (cases ch) auto
  have d: "drop 9 (js ''channels/'' @ ch @ js ''/messages'' @ r) = c # cs @ js ''/messages'' @ r"
    by (simp add: js_def ch)
  from assms(2,3) ch have "\<not> is_line_terminator c" "dotstar_end (cs @ js ''/messages'' @ r)"
    "cu CHR ''/'' \<notin> set cs" by auto
  then show ?thesis
    unfolding parseTopic_def d using lazy_group_exact[of cs r "[c]"]
    by (simp add: prefix_def ch)
qed

section \<open>The subtopic elements and the bus publishes of a run\<close>

lemma join_eq_Nil: "\<forall>s\<in>set xs. s \<noteq> [] \<Longrightarrow> join sep xs = [] \<longleftrightarrow> xs = []"
  by (induction sep xs rule: join.induct) auto

lemma elements_nonempty: "\<forall>s\<in>set (elements t). s \<noteq> []"
  by (simp add: elements_def isEmpty_def)

lemma join_elements_Nil: "join sep (elements t) = [] \<longleftrightarrow> elements t = []"
  using join_eq_Nil elements_nonempty by blast

lemma bus_publishes_authorizePublish:
  "bus_publishes (authorizePublish encode things c pk) =
     (case parseTopic (topic pk) of
        None \<Rightarrow> []
      | Some ch \<Rightarrow>
          if invalid_subtopic (elements (topic pk)) then []
          else (case things \<lparr>token = password c, chanID = ch\<rparr> of
                  Inl err \<Rightarrow> []
                | Inr res \<Rightarrow>
                    [(channelTopic ch (elements (topic pk)),
                      encode \<lparr>publisher = thingId c, channel = ch,
                              subtopic = join (js ''.'') (elements (topic pk)),
                              protocol = js ''mqtt'', payload_of = payload pk\<rparr>)]))"
  by (simp add: authorizePublish_def onAuthorize_def Let_def split: option.splits sum.splits)

lemma channelTopic_eq:
  "channelTopic ch (elements t) =
     js ''channel.'' @ ch @
       (if join (js ''.'') (elements t) \<noteq> [] then js ''.'' @ join (js ''.'') (elements t) else [])"
  by (simp add: channelTopic_def Let_def join_elements_Nil)

lemma invalid_subtopic_iff:
  "invalid_subtopic es \<longleftrightarrow>
     (\<exists>e\<in>set es. length e > 1 \<and> (cu CHR ''*'' \<in> set e \<or> cu CHR ''>'' \<in> set e))"
  by (induction es) auto

section \<open>Rendering a topic and parsing it back\<close>

lemma replace_dots_id: "cu CHR ''.'' \<notin> set s \<Longrightarrow> replace_dots s = s"
  by (induction s) (auto simp: replace_dots_def)

lemma replace_dots_append: "replace_dots (a @ b) = replace_dots a @ replace_dots b"
  by (simp add: replace_dots_def)

lemma replace_dots_join:
  "\<forall>s\<in>set segs. cu CHR ''.'' \<notin> set s \<Longrightarrow>
   replace_dots (join (js ''.'') segs) = join (js ''/'') segs"
proof (induction segs)
  case Nil
  then show ?case by (simp add: replace_dots_def)
next
  case (Cons s segs)
  show ?case
  proof (cases segs)
    case Nil
    with Cons.prems show ?thesis by (simp add: replace_dots_id)
  next
    case (Cons t ts)
    have "replace_dots (js ''.'') = js ''/''" by (simp add: replace_dots_def js_def)
    with Cons Cons.IH Cons.prems show ?thesis
      by (simp add: replace_dots_append replace_dots_id)
  qed
qed

lemma slash_join:
  "segs \<noteq> [] \<Longrightarrow> js ''/'' @ join (js ''/'') segs = concat (map (\<lambda>s. cu CHR ''/'' # s) segs)"
proof (induction segs)
  case Nil
  then show ?case by simp
next
  case (Cons s segs)
  then show ?case by (cases segs) (auto simp: js_def)
qed

lemma split_segments:
  "sep \<notin> set s \<Longrightarrow> \<forall>x\<in>set segs. sep \<notin> set x \<Longrightarrow>
   split sep (s @ concat (map (\<lambda>x. sep # x) segs)) = s # segs"
proof (induction segs arbitrary: s)
  case Nil
  then show ?case by (simp add: split_no_sep)
next
  case (Cons x xs)
  then show ?case by (simp add: split_append_sep)
qed

lemma mqtt_topic_segments:
  assumes "\<forall>s\<in>set segs. plain_segment s"
  shows "mqtt_topic ch (join (js ''.'') segs) =
         js ''channels/'' @ ch @ js ''/messages'' @ concat (map (\<lambda>s. cu CHR ''/'' # s) segs)"
proof (cases segs)
  case Nil
  then show ?thesis by (simp add: mqtt_topic_def)
next
  case (Cons s ss)
  from assms have ne: "\<forall>s\<in>set segs. s \<noteq> []" and nd: "\<forall>s\<in>set segs. cu CHR ''.'' \<notin> set s"
    by (auto simp: plain_segment_def spec_segment_def)
  from Cons ne have "join (js ''.'') segs \<noteq> []" by (simp add: join_eq_Nil)
  moreover from Cons have "segs \<noteq> []" by simp
  ultimately show ?thesis
    using replace_dots_join[OF nd] slash_join[of segs] by (simp add: mqtt_topic_def Let_def)
qed

lemma elements_of_topic:
  assumes ch: "cu CHR ''/'' \<notin> set ch" and segs: "\<forall>s\<in>set segs. plain_segment s"
  shows "elements (js ''channels/'' @ ch @ js ''/messages'' @
                   concat (map (\<lambda>s. cu CHR ''/'' # s) segs)) = segs"
proof -
  let ?sl = "cu CHR ''/''"
  let ?rest = "concat (map (\<lambda>s. ?sl # s) segs)"
  from segs have ns: "\<forall>x\<in>set segs. ?sl \<notin> set x" and nd: "\<forall>x\<in>set segs. cu CHR ''.'' \<notin> set x"
    and ne: "\<forall>x\<in>set segs. x \<noteq> []"
    by (auto simp: plain_segment_def spec_segment_def)
  have m: "?sl \<notin> set (js ''messages'')" and c: "?sl \<notin> set (js ''channels'')"
    by (simp_all add: js_def)
  have "split ?sl (js ''channels/'' @ ch @ js ''/messages'' @ ?rest) =
        split ?sl (js ''channels'' @ ?sl # (ch @ ?sl # (js ''messages'' @ ?rest)))"
    by (simp add: js_def)
  also have "\<dots> = js ''channels'' # split ?sl (ch @ ?sl # (js ''messages'' @ ?rest))"
    by (rule split_append_sep[OF c])
  also have "\<dots> = js ''channels'' # ch # split ?sl (js ''messages'' @ ?rest)"
    by (simp only: split_append_sep[OF ch])
  also have "\<dots> = js ''channels'' # ch # js ''messages'' # segs"
    by (simp only: split_segments[OF m ns])
  finally have "split ?sl (js ''channels/'' @ ch @ js ''/messages'' @ ?rest) =
             js ''channels'' # ch # js ''messages'' # segs" .
  then have d: "drop baseLength (split ?sl (js ''channels/'' @ ch @ js ''/messages'' @ ?rest)) = segs"
    by (simp add: baseLength_def)
  have "filter isEmpty (split (cu CHR ''.'') (join (js ''.'') segs)) = segs"
  proof (cases "segs = []")
    case True
    then show ?thesis by (simp add: isEmpty_def)
  next
    case False
    have "js ''.'' = [cu CHR ''.'']" by (simp add: js_def)
    with False nd have "split (cu CHR ''.'') (join (js ''.'') segs) = segs"
      using split_join[of segs "cu CHR ''.''"] by simp
    with ne show ?thesis by (simp add: isEmpty_def filter_id_conv)
  qed
  with d show ?thesis by (simp add: elements_def)
qed

lemma plain_not_invalid: "\<forall>s\<in>set segs. plain_segment s \<Longrightarrow> \<not> invalid_subtopic segs"
  by (auto simp: invalid_subtopic_iff plain_segment_def spec_segment_def)

lemma dotstar_end_concat:
  "\<forall>s\<in>set segs. plain_segment s \<Longrightarrow> dotstar_end (concat (map (\<lambda>s. cu CHR ''/'' # s) segs))"
  by (induction segs) (auto simp: plain_segment_def dotstar_end_append is_line_terminator_def)

section \<open>Authorization of a PUBLISH\<close>

text \<open>
  Claim C1. Whenever \<open>authorizePublish\<close> accepts a PUBLISH (calls back with code 0), the run
  is: the call of CanAccess with the password stored on the connection and the channel id
  parsed from the topic, which the things service answered with success, then the publish of
  the envelope on the bus, then the acceptance. Whenever the CanAccess call that was made is
  answered with an error, the run ends with the refusal, code 4, and holds no bus publish.
\<close>

theorem authorizePublish_auth_coverage:
  "(PublishCb 0 \<in> set (authorizePublish encode things c pk) \<longrightarrow>
      (\<exists>ch res data.
         parseTopic (topic pk) = Some ch \<and>
         things \<lparr>token = password c, chanID = ch\<rparr> = Inr res \<and>
         authorizePublish encode things c pk =
           [CanAccess \<lparr>token = password c, chanID = ch\<rparr>,
            Log Info (js ''authorized publish'') [],
            NatsPublish (channelTopic ch (elements (topic pk))) data,
            PublishCb 0])) \<and>
   (\<forall>req err.
      CanAccess req \<in> set (authorizePublish encode things c pk) \<and> things req = Inl err \<longrightarrow>
      authorizePublish encode things c pk =
        [CanAccess req, Log Warn (js ''unauthorized publish: %s'') [JStr (message err)],
         PublishCb 4])"
  by (auto simp: authorizePublish_def onAuthorize_def Let_def split: option.splits sum.splits)

theorem authorizePublish_auth_coverage_witness:
  "PublishCb 0 \<in> set (authorizePublish payload_of grant thing1_client
       (publish_packet (js ''channels/ch-9/messages/temp/room-1''))) \<and>
   authorizePublish payload_of grant thing1_client
       (publish_packet (js ''channels/ch-9/messages/temp/room-1'')) =
     [CanAccess \<lparr>token = JStr (js ''abc''), chanID = js ''ch-9''\<rparr>,
      Log Info (js ''authorized publish'') [],
      NatsPublish (js ''channel.ch-9.temp.room-1'') [1, 2],
      PublishCb 0] \<and>
   CanAccess \<lparr>token = JStr (js ''abc''), chanID = js ''ch-9''\<rparr> \<in>
     set (authorizePublish payload_of deny thing1_client
       (publish_packet (js ''channels/ch-9/messages/temp/room-1''))) \<and>
   authorizePublish payload_of deny thing1_client
       (publish_packet (js ''channels/ch-9/messages/temp/room-1'')) =
     [CanAccess \<lparr>token = JStr (js ''abc''), chanID = js ''ch-9''\<rparr>,
      Log Warn (js ''unauthorized publish: %s'') [JStr (js ''denied'')],
      PublishCb 4]"
  using authorizePublish_auth_coverage
    [of payload_of grant thing1_client "publish_packet (js ''channels/ch-9/messages/temp/room-1'')"]
    authorizePublish_auth_coverage
    [of payload_of deny thing1_client "publish_packet (js ''channels/ch-9/messages/temp/room-1'')"]
  by (simp add: run_defs)

section \<open>The envelope put on the bus\<close>

text \<open>
  Claim C2. Every envelope that \<open>authorizePublish\<close> publishes on the bus is the encoding of
  the message whose publisher is the thing id of the connection, whose protocol is \<open>mqtt\<close>,
  whose channel is the channel id parsed from the topic, whose subtopic is the dot-join of
  the subtopic elements of the topic and whose payload is the payload of the PUBLISH; its
  subject is \<open>channel.\<close> followed by the channel id, followed by a dot and the subtopic when
  the subtopic is not empty. The thing id of a connection is the value that the things
  service returned when the connection was authenticated.
\<close>

theorem authorizePublish_envelope:
  "((subject, data) \<in> set (bus_publishes (authorizePublish encode things c pk)) \<longrightarrow>
      (\<exists>ch. parseTopic (topic pk) = Some ch \<and>
         data = encode \<lparr>publisher = thingId c, channel = ch,
                        subtopic = join (js ''.'') (elements (topic pk)),
                        protocol = js ''mqtt'', payload_of = payload pk\<rparr> \<and>
         subject = js ''channel.'' @ ch @
           (if join (js ''.'') (elements (topic pk)) \<noteq> []
            then js ''.'' @ join (js ''.'') (elements (topic pk)) else []))) \<and>
   (things_identify \<lparr>ivalue = (case pw of None \<Rightarrow> [] | Some s \<Rightarrow> s)\<rparr> = Inr res \<longrightarrow>
      thingId (fst (authenticate cfg now xadd_reply things_identify c0 username pw)) =
        JStr (ivalue res))"
  by (auto simp: bus_publishes_authorizePublish channelTopic_eq authenticate_def Let_def
           split: option.splits sum.splits if_splits)

theorem authorizePublish_envelope_witness:
  "(js ''channel.ch-9.temp.room-1'', [1, 2]) \<in>
     set (bus_publishes (authorizePublish payload_of grant thing1_client
            (publish_packet (js ''channels/ch-9/messages/temp/room-1'')))) \<and>
   parseTopic (js ''channels/ch-9/messages/temp/room-1'') = Some (js ''ch-9'') \<and>
   join (js ''.'') (elements (js ''channels/ch-9/messages/temp/room-1'')) = js ''temp.room-1'' \<and>
   identify_ok \<lparr>ivalue = js ''abc''\<rparr> = Inr \<lparr>ivalue = js ''thing-1''\<rparr> \<and>
   thingId (fst (authenticate (mk_config None) 0 no_reply identify_ok fresh_client Undefined
                   (Some (js ''abc'')))) = JStr (js ''thing-1'')"
  using authorizePublish_envelope
    [where subject = "js ''channel.ch-9.temp.room-1''" and data = "[1, 2]"
       and encode = payload_of and things = grant and c = thing1_client
       and pk = "publish_packet (js ''channels/ch-9/messages/temp/room-1'')"
       and things_identify = identify_ok and pw = "Some (js ''abc'')"
       and res = "\<lparr>ivalue = js ''thing-1''\<rparr>" and cfg = "mk_config None" and now = 0
       and xadd_reply = no_reply and ?c0.0 = fresh_client and username = Undefined]
  by (simp add: run_defs)

section \<open>Messages from the bus\<close>

text \<open>
  Claim C3. For a message delivered by the subscription on \<open>channel.>\<close>: when the protocol
  field of the decoded envelope is \<open>mqtt\<close> the handler does nothing, and whenever the handler
  does anything (its only effect is an MQTT publish) the message decoded to an envelope whose
  protocol is not \<open>mqtt\<close>.
\<close>

theorem on_message_loop_suppression:
  "(decode msg = Inr (Some m) \<and> protocol m = js ''mqtt'' \<longrightarrow> on_message decode msg = Inr []) \<and>
   (on_message decode msg = Inr es \<and> es \<noteq> [] \<longrightarrow>
      (\<exists>m'. decode msg = Inr (Some m') \<and> protocol m' \<noteq> js ''mqtt''))"
  by (auto simp: on_message_def split: sum.splits option.splits if_splits)

theorem on_message_loop_suppression_witness:
  "protocol (http_message\<lparr>protocol := js ''mqtt''\<rparr>) = js ''mqtt'' \<and>
   on_message (\<lambda>b. Inr (Some (http_message\<lparr>protocol := js ''mqtt''\<rparr>))) [] = Inr [] \<and>
   on_message (\<lambda>b. Inr (Some http_message)) [] =
     Inr [AedesPublish \<lparr>cmd = js ''publish'', qos = 2,
                         topic = js ''channels/ch-1/messages/alpha/beta'',
                         payload = [9], retain = False\<rparr>] \<and>
   protocol http_message \<noteq> js ''mqtt''"
  using on_message_loop_suppression
    [where decode = "\<lambda>b. Inr (Some (http_message\<lparr>protocol := js ''mqtt''\<rparr>))" and msg = "[]"
       and m = "http_message\<lparr>protocol := js ''mqtt''\<rparr>"]
    on_message_loop_suppression
    [where decode = "\<lambda>b. Inr (Some http_message)" and msg = "[]"
       and es = "[AedesPublish \<lparr>cmd = js ''publish'', qos = 2,
                         topic = js ''channels/ch-1/messages/alpha/beta'',
                         payload = [9], retain = False\<rparr>]"]
  by (simp add: on_message_def http_message_def mqtt_topic_def replace_dots_def js_def)

text \<open>
  Claim C9. For a message from the bus whose decoded protocol is not \<open>mqtt\<close> the handler
  publishes one MQTT packet: its topic is \<open>channels/{channel}/messages\<close> when the subtopic of
  the envelope is empty and \<open>channels/{channel}/messages/\<close> followed by the subtopic with
  every dot replaced by a slash otherwise; its QoS is 2, its retain flag is false and its
  payload is the payload of the envelope.
\<close>

theorem on_message_packet:
  "decode msg = Inr (Some m) \<and> protocol m \<noteq> js ''mqtt'' \<longrightarrow>
   on_message decode msg =
     Inr [AedesPublish
            \<lparr>cmd = js ''publish'', qos = 2,
             topic = (if subtopic m = [] then js ''channels/'' @ channel m @ js ''/messages''
                      else js ''channels/'' @ channel m @ js ''/messages/'' @
                           map (\<lambda>x. if x = cu CHR ''.'' then cu CHR ''/'' else x) (subtopic m)),
             payload = payload_of m, retain = False\<rparr>]"
  by (simp add: on_message_def mqtt_topic_def replace_dots_def js_def)

theorem on_message_packet_witness:
  "protocol http_message \<noteq> js ''mqtt'' \<and>
   on_message (\<lambda>b. Inr (Some http_message)) [] =
     Inr [AedesPublish \<lparr>cmd = js ''publish'', qos = 2,
                         topic = js ''channels/ch-1/messages/alpha/beta'',
                         payload = [9], retain = False\<rparr>] \<and>
   on_message (\<lambda>b. Inr (Some (http_message\<lparr>subtopic := []\<rparr>))) [] =
     Inr [AedesPublish \<lparr>cmd = js ''publish'', qos = 2,
                         topic = js ''channels/ch-1/messages'',
                         payload = [9], retain = False\<rparr>]"
  using on_message_packet
    [where decode = "\<lambda>b. Inr (Some http_message)" and msg = "[]" and m = http_message]
    on_message_packet
    [where decode = "\<lambda>b. Inr (Some (http_message\<lparr>subtopic := []\<rparr>))" and msg = "[]"
       and m = "http_message\<lparr>subtopic := []\<rparr>"]
  by (simp add: http_message_def js_def)

section \<open>Connection events\<close>

text \<open>
  Claim C8. When the things service identifies the key, \<open>authenticate\<close> acknowledges the
  CONNECT and sends exactly one record to the event stream, with event type \<open>connect\<close>; the
  handler of a client disconnect sends exactly one record, with event type \<open>disconnect\<close>.
  Each record goes to the configured stream and holds, in this order, \<open>thing_id\<close> (the thing
  id of the connection), \<open>timestamp\<close> (the clock in whole seconds, the nearest to the
  millisecond clock), \<open>event_type\<close> and \<open>instance\<close> (the configured instance id).
\<close>

theorem connection_events:
  "(things_identify \<lparr>ivalue = (case pw of None \<Rightarrow> [] | Some s \<Rightarrow> s)\<rparr> = Inr res \<longrightarrow>
      Acknowledge None True \<in>
        set (snd (authenticate cfg now xadd_reply things_identify c username pw)) \<and>
      stream_records (snd (authenticate cfg now xadd_reply things_identify c username pw)) =
        [(event_stream cfg, js ''*'',
          [(js ''thing_id'', JStr (ivalue res)),
           (js ''timestamp'', JNum (round_seconds now)),
           (js ''event_type'', JStr (js ''connect'')),
           (js ''instance'', JStr (instance_id cfg))])]) \<and>
   stream_records (snd (clientDisconnect cfg now xadd_reply c)) =
     [(event_stream cfg, js ''*'',
       [(js ''thing_id'', thingId c),
        (js ''timestamp'', JNum (round_seconds now)),
        (js ''event_type'', JStr (js ''disconnect'')),
        (js ''instance'', JStr (instance_id cfg))])] \<and>
   \<bar>1000 * round_seconds now - now\<bar> \<le> 500 \<and>
   event_stream (mk_config env) = js ''mainflux.mqtt'' \<and>
   instance_id (mk_config (Some inst)) = inst"
  by (auto simp: authenticate_def clientDisconnect_def publishConnEvent_def Let_def
        round_seconds_def mk_config_def split: option.splits)

theorem connection_events_witness:
  "identify_ok \<lparr>ivalue = js ''abc''\<rparr> = Inr \<lparr>ivalue = js ''thing-1''\<rparr> \<and>
   stream_records (snd (authenticate (mk_config (Some (js ''mqtt-1''))) 1700000000499 no_reply
                          identify_ok fresh_client Undefined (Some (js ''abc'')))) =
     [(js ''mainflux.mqtt'', js ''*'',
       [(js ''thing_id'', JStr (js ''thing-1'')),
        (js ''timestamp'', JNum 1700000000),
        (js ''event_type'', JStr (js ''connect'')),
        (js ''instance'', JStr (js ''mqtt-1''))])] \<and>
   stream_records (snd (clientDisconnect (mk_config (Some (js ''mqtt-1''))) 1700000000500 no_reply
                          thing1_client)) =
     [(js ''mainflux.mqtt'', js ''*'',
       [(js ''thing_id'', JStr (js ''thing-1'')),
        (js ''timestamp'', JNum 1700000001),
        (js ''event_type'', JStr (js ''disconnect'')),
        (js ''instance'', JStr (js ''mqtt-1''))])]"
  using connection_events
    [where things_identify = identify_ok and pw = "Some (js ''abc'')"
       and res = "\<lparr>ivalue = js ''thing-1''\<rparr>" and cfg = "mk_config (Some (js ''mqtt-1''))"
       and now = 1700000000499 and xadd_reply = no_reply and c = fresh_client
       and username = Undefined]
    connection_events
    [where cfg = "mk_config (Some (js ''mqtt-1''))" and now = 1700000000500
       and xadd_reply = no_reply and c = thing1_client]
  by (simp add: run_defs mk_config_def round_seconds_def authenticate_def clientDisconnect_def
        publishConnEvent_def)

section \<open>Wildcards in the subtopic of a PUBLISH\<close>

text \<open>
  The loop of \<open>authorizePublish\<close> tests \<open>elements[i].length > 1\<close> before it looks for a
  wildcard: a PUBLISH on \<open>channels/c/messages/*\<close>, whose only subtopic element is the single
  character \<open>*\<close>, is authorized, published on the subject \<open>channel.c.*\<close> and accepted.
\<close>

theorem single_wildcard_segment_counterexample:
  "elements (js ''channels/c/messages/*'') = [js ''*''] \<and>
   cu CHR ''*'' \<in> set (js ''*'') \<and>
   authorizePublish payload_of grant thing1_client (publish_packet (js ''channels/c/messages/*'')) =
     [CanAccess \<lparr>token = JStr (js ''abc''), chanID = js ''c''\<rparr>,
      Log Info (js ''authorized publish'') [],
      NatsPublish (js ''channel.c.*'') [1, 2],
      PublishCb 0]"
  by (simp add: run_defs)

text \<open>
  Claim C4, as amended. When some subtopic element of the topic of a PUBLISH is longer than
  one code unit and contains \<open>*\<close> or \<open>>\<close>, the PUBLISH is refused with code 4 (as an unknown
  topic when the topic does not parse, as an invalid subtopic otherwise), the things service
  is not called and nothing is published on the bus.
\<close>

theorem wildcard_in_longer_segment_refused:
  "(\<exists>e\<in>set (elements (topic pk)).
       length e > 1 \<and> (cu CHR ''*'' \<in> set e \<or> cu CHR ''>'' \<in> set e)) \<longrightarrow>
   (authorizePublish encode things c pk = [Log Warn (js ''unknown topic'') [], PublishCb 4] \<or>
    authorizePublish encode things c pk = [Log Warn (js ''invalid subtopic'') [], PublishCb 4]) \<and>
   bus_publishes (authorizePublish encode things c pk) = []"
  by (auto simp: authorizePublish_def Let_def invalid_subtopic_iff split: option.splits)

theorem wildcard_in_longer_segment_refused_witness:
  "elements (js ''channels/ch-1/messages/a*b'') = [js ''a*b''] \<and>
   length (js ''a*b'') > 1 \<and> cu CHR ''*'' \<in> set (js ''a*b'') \<and>
   authorizePublish payload_of grant thing1_client
       (publish_packet (js ''channels/ch-1/messages/a*b'')) =
     [Log Warn (js ''invalid subtopic'') [], PublishCb 4] \<and>
   bus_publishes (authorizePublish payload_of grant thing1_client
       (publish_packet (js ''channels/ch-1/messages/a*b''))) = []"
  using wildcard_in_longer_segment_refused
    [where pk = "publish_packet (js ''channels/ch-1/messages/a*b'')" and encode = payload_of
       and things = grant and c = thing1_client]
  by (simp add: run_defs)

section \<open>The topics that parse\<close>

text \<open>
  The group \<open>(.+?)\<close> takes any code units but line terminators, so the parser accepts channel
  ids with a full stop or a slash in them; and since \<open>.\<close> matches no line terminator, it
  rejects a topic of the shape of the specification that holds a line feed.
\<close>

theorem parseTopic_shape_counterexample:
  "parseTopic (js ''channels/a.b/messages'') = Some (js ''a.b'') \<and>
   \<not> spec_topic_shape (js ''channels/a.b/messages'') \<and>
   parseTopic (js ''channels/a/b/messages'') = Some (js ''a/b'') \<and>
   \<not> spec_topic_shape (js ''channels/a/b/messages'') \<and>
   spec_topic_shape (js ''channels/c/messages/'' @ [0x000A]) \<and>
   parseTopic (js ''channels/c/messages/'' @ [0x000A]) = None"
  by (simp add: run_defs spec_topic_shape_def spec_channel_id_def)

text \<open>
  Claim C5, as amended. The parser accepts every topic \<open>channels/{id}/messages\<close> and
  \<open>channels/{id}/messages/{rest}\<close> that holds no line terminator and whose id is not empty; the
  id may hold full stops and slashes, and when it holds no slash it is the channel id that
  the parser returns. Every topic that the parser accepts holds no line terminator and
  starts with \<open>channels/\<close>, the returned id, which is not empty, and \<open>/messages\<close>; every other
  topic is rejected.
\<close>

theorem parseTopic_accepted_shape:
  "(ch \<noteq> [] \<and> dotstar_end (ch @ r) \<and> (r = [] \<or> (\<exists>r'. r = cu CHR ''/'' # r')) \<longrightarrow>
      parseTopic (js ''channels/'' @ ch @ js ''/messages'' @ r) \<noteq> None) \<and>
   (ch \<noteq> [] \<and> dotstar_end (ch @ r) \<and> (r = [] \<or> (\<exists>r'. r = cu CHR ''/'' # r')) \<and>
    cu CHR ''/'' \<notin> set ch \<longrightarrow>
      parseTopic (js ''channels/'' @ ch @ js ''/messages'' @ r) = Some ch) \<and>
   (parseTopic t = Some g \<longrightarrow>
      g \<noteq> [] \<and> (\<exists>r. t = js ''channels/'' @ g @ js ''/messages'' @ r) \<and> dotstar_end t)"
proof -
  have m: "dotstar_end (js ''/messages'')"
    by (simp add: js_def is_line_terminator_def)
  have a: "dotstar_end (ch @ js ''/messages'' @ r)" if "dotstar_end (ch @ r)"
    using that m by (simp add: dotstar_end_append)
  show ?thesis
    using parseTopic_accepts[of ch r] parseTopic_exact[of ch r] parseTopic_Some[of t g] a
    by blast
qed

theorem parseTopic_accepted_shape_witness:
  "js ''a.b'' \<noteq> [] \<and> dotstar_end (js ''a.b'' @ js ''/temp'') \<and>
   js ''/temp'' = cu CHR ''/'' # js ''temp'' \<and> cu CHR ''/'' \<notin> set (js ''a.b'') \<and>
   parseTopic (js ''channels/'' @ js ''a.b'' @ js ''/messages'' @ js ''/temp'') = Some (js ''a.b'') \<and>
   parseTopic (js ''channels/ch-9/messages/temp'') = Some (js ''ch-9'') \<and>
   js ''channels/ch-9/messages/temp'' = js ''channels/'' @ js ''ch-9'' @ js ''/messages'' @ js ''/temp'' \<and>
   dotstar_end (js ''channels/ch-9/messages/temp'')"
  using parseTopic_accepted_shape
    [where ch = "js ''a.b''" and r = "js ''/temp''"
       and t = "js ''channels/ch-9/messages/temp''" and g = "js ''ch-9''"]
  by (simp add: run_defs)

section \<open>The round trip between topics and pairs of channel and subtopic\<close>

text \<open>
  A segment that matches \<open>[^.*>]+\<close> may hold a slash: the subtopic \<open>a/b\<close> of channel \<open>c\<close> is
  rendered as \<open>channels/c/messages/a/b\<close>, which parses to the subtopic \<open>a.b\<close>. A channel id
  without slash and full stop may be a line feed, and then the rendered topic does not parse.
\<close>

theorem roundtrip_counterexample:
  "spec_channel_id (js ''c'') \<and> list_all spec_segment [js ''a/b''] \<and>
   parseTopic (mqtt_topic (js ''c'') (join (js ''.'') [js ''a/b''])) = Some (js ''c'') \<and>
   join (js ''.'') (elements (mqtt_topic (js ''c'') (join (js ''.'') [js ''a/b'']))) = js ''a.b'' \<and>
   js ''a.b'' \<noteq> join (js ''.'') [js ''a/b''] \<and>
   spec_channel_id [0x000A] \<and> parseTopic (mqtt_topic [0x000A] []) = None"
  by (simp add: run_defs spec_channel_id_def spec_segment_def mqtt_topic_def replace_dots_def)

text \<open>
  Claim C6, as amended. Let the channel id be non-empty, without slash, full stop and line
  terminator, and let every subtopic segment match \<open>[^.*>]+\<close> and hold no slash and no line
  terminator. Then the topic rendered from the channel id and the dot-join of the segments
  parses to that channel id and to that subtopic (and passes the wildcard test); and the
  topic \<open>channels/{id}/messages/{seg1}/{seg2}/\<dots>\<close> parses to a pair that is rendered as that topic.
\<close>

theorem topic_roundtrip:
  "spec_channel_id ch \<and> dotstar_end ch \<and> (\<forall>s\<in>set segs. plain_segment s) \<longrightarrow>
   parseTopic (mqtt_topic ch (join (js ''.'') segs)) = Some ch \<and>
   \<not> invalid_subtopic (elements (mqtt_topic ch (join (js ''.'') segs))) \<and>
   join (js ''.'') (elements (mqtt_topic ch (join (js ''.'') segs))) = join (js ''.'') segs \<and>
   parseTopic (js ''channels/'' @ ch @ js ''/messages'' @
               concat (map (\<lambda>s. cu CHR ''/'' # s) segs)) = Some ch \<and>
   mqtt_topic ch
     (join (js ''.'')
        (elements (js ''channels/'' @ ch @ js ''/messages'' @
                   concat (map (\<lambda>s. cu CHR ''/'' # s) segs)))) =
     js ''channels/'' @ ch @ js ''/messages'' @ concat (map (\<lambda>s. cu CHR ''/'' # s) segs)"
proof (intro impI, elim conjE)
  assume valid: "spec_channel_id ch" and nl: "dotstar_end ch"
    and segs: "\<forall>s\<in>set segs. plain_segment s"
  let ?r = "concat (map (\<lambda>s. cu CHR ''/'' # s) segs)"
  let ?t = "js ''channels/'' @ ch @ js ''/messages'' @ ?r"
  from valid have ne: "ch \<noteq> []" and ns: "cu CHR ''/'' \<notin> set ch"
    by (auto simp: spec_channel_id_def)
  have m: "dotstar_end (js ''/messages'')" by (simp add: js_def is_line_terminator_def)
  have "dotstar_end (ch @ js ''/messages'' @ ?r)"
    using nl m dotstar_end_concat[OF segs] by (simp add: dotstar_end_append)
  then have p: "parseTopic ?t = Some ch" using parseTopic_exact[OF ne ns] by simp
  have e: "elements ?t = segs" using elements_of_topic[OF ns segs] .
  have t: "mqtt_topic ch (join (js ''.'') segs) = ?t" using mqtt_topic_segments[OF segs] .
  show "parseTopic (mqtt_topic ch (join (js ''.'') segs)) = Some ch \<and>
   \<not> invalid_subtopic (elements (mqtt_topic ch (join (js ''.'') segs))) \<and>
   join (js ''.'') (elements (mqtt_topic ch (join (js ''.'') segs))) = join (js ''.'') segs \<and>
   parseTopic ?t = Some ch \<and> mqtt_topic ch (join (js ''.'') (elements ?t)) = ?t"
    using p e t plain_not_invalid[OF segs] by simp
qed

theorem topic_roundtrip_witness:
  "spec_channel_id (js ''ch-9'') \<and> dotstar_end (js ''ch-9'') \<and>
   plain_segment (js ''temp'') \<and> plain_segment (js ''room-1'') \<and>
   mqtt_topic (js ''ch-9'') (js ''temp.room-1'') = js ''channels/ch-9/messages/temp/room-1'' \<and>
   parseTopic (js ''channels/ch-9/messages/temp/room-1'') = Some (js ''ch-9'') \<and>
   join (js ''.'') (elements (js ''channels/ch-9/messages/temp/room-1'')) = js ''temp.room-1''"
  using topic_roundtrip [where ch = "js ''ch-9''" and segs = "[js ''temp'', js ''room-1'']"]
  by (simp add: run_defs spec_channel_id_def plain_segment_def spec_segment_def mqtt_topic_def
        replace_dots_def)

section \<open>Topics with the same subtopic elements\<close>

text \<open>
  Claim C10. Two PUBLISH topics that parse to the same channel id and have the same subtopic
  elements (the pieces after the third slash-separated piece, joined with dots, split at
  dots, without the empty ones) lead to the same run of \<open>authorizePublish\<close>, and so to the
  same bus subject and the same subtopic in the envelope. The topics
  \<open>channels/c/messages/a/b\<close>, \<open>channels/c/messages/a.b\<close> and \<open>channels/c/messages//a/b/\<close> are all
  published on \<open>channel.c.a.b\<close> with the subtopic \<open>a.b\<close>.
\<close>

theorem same_elements_same_subject:
  "(parseTopic t1 = Some ch \<and> parseTopic t2 = Some ch \<and> elements t1 = elements t2 \<longrightarrow>
      authorizePublish encode things c (pk\<lparr>topic := t1\<rparr>) =
      authorizePublish encode things c (pk\<lparr>topic := t2\<rparr>)) \<and>
   (t \<in> {js ''channels/c/messages/a/b'', js ''channels/c/messages/a.b'',
          js ''channels/c/messages//a/b/''} \<longrightarrow>
      authorizePublish encode grant thing1_client (publish_packet t) =
        [CanAccess \<lparr>token = JStr (js ''abc''), chanID = js ''c''\<rparr>,
         Log Info (js ''authorized publish'') [],
         NatsPublish (js ''channel.c.a.b'')
           (encode \<lparr>publisher = JStr (js ''thing-1''), channel = js ''c'',
                    subtopic = js ''a.b'', protocol = js ''mqtt'', payload_of = [1, 2]\<rparr>),
         PublishCb 0])"
proof (intro conjI impI)
  assume "parseTopic t1 = Some ch \<and> parseTopic t2 = Some ch \<and> elements t1 = elements t2"
  then show "authorizePublish encode things c (pk\<lparr>topic := t1\<rparr>) =
      authorizePublish encode things c (pk\<lparr>topic := t2\<rparr>)"
    by (simp add: authorizePublish_def onAuthorize_def Let_def split: option.splits sum.splits)
next
  assume "t \<in> {js ''channels/c/messages/a/b'', js ''channels/c/messages/a.b'',
          js ''channels/c/messages//a/b/''}"
  then consider "t = js ''channels/c/messages/a/b''" | "t = js ''channels/c/messages/a.b''"
    | "t = js ''channels/c/messages//a/b/''" by blast
  then show "authorizePublish encode grant thing1_client (publish_packet t) =
        [CanAccess \<lparr>token = JStr (js ''abc''), chanID = js ''c''\<rparr>,
         Log Info (js ''authorized publish'') [],
         NatsPublish (js ''channel.c.a.b'')
           (encode \<lparr>publisher = JStr (js ''thing-1''), channel = js ''c'',
                    subtopic = js ''a.b'', protocol = js ''mqtt'', payload_of = [1, 2]\<rparr>),
         PublishCb 0]"
    by cases (simp_all add: run_defs)
qed

theorem same_elements_same_subject_witness:
  "parseTopic (js ''channels/c/messages/a.b'') = Some (js ''c'') \<and>
   parseTopic (js ''channels/c/messages//a/b/'') = Some (js ''c'') \<and>
   elements (js ''channels/c/messages/a.b'') = elements (js ''channels/c/messages//a/b/'') \<and>
   authorizePublish payload_of grant thing1_client
       ((publish_packet [])\<lparr>topic := js ''channels/c/messages/a.b''\<rparr>) =
     authorizePublish payload_of grant thing1_client
       ((publish_packet [])\<lparr>topic := js ''channels/c/messages//a/b/''\<rparr>) \<and>
   authorizePublish payload_of grant thing1_client
       (publish_packet (js ''channels/c/messages/a/b'')) =
     [CanAccess \<lparr>token = JStr (js ''abc''), chanID = js ''c''\<rparr>,
      Log Info (js ''authorized publish'') [],
      NatsPublish (js ''channel.c.a.b'') [1, 2],
      PublishCb 0]"
  using same_elements_same_subject
    [where ?t1.0 = "js ''channels/c/messages/a.b''" and ?t2.0 = "js ''channels/c/messages//a/b/''"
       and encode = payload_of and things = grant and c = thing1_client
       and pk = "publish_packet []" and t = "js ''channels/c/messages/a/b''"
       and ch = "js ''c''"]
  by (simp add: run_defs)

section \<open>The publisher and its breaker\<close>

lemma binade_scale_reached: "0 < a \<Longrightarrow> 2 ^ 52 * b \<le> a * 2 ^ binade_scale a b s0"
proof (induction a b s0 rule: binade_scale.induct)
  case (1 a b s)
  then show ?case by (subst binade_scale.simps) auto
qed

lemma binade_scale_least:
  "0 < a \<Longrightarrow> s0 \<le> t \<Longrightarrow> t < binade_scale a b s0 \<Longrightarrow> a * 2 ^ t < 2 ^ 52 * b"
proof (induction a b s0 rule: binade_scale.induct)
  case (1 a b s)
  show ?case
  proof (cases "2 ^ 52 * b \<le> a * 2 ^ s")
    case True
    then have "binade_scale a b s = s" by (subst binade_scale.simps) simp
    with "1.prems" show ?thesis by simp
  next
    case False
    then have eq: "binade_scale a b s = binade_scale a b (s + 1)"
      using "1.prems"(1) by (subst binade_scale.simps) simp
    show ?thesis
    proof (cases "t = s")
      case True
      with False show ?thesis by simp
    next
      case False': False
      with "1.prems" have "Suc s \<le> t" by simp
      with "1.IH" False "1.prems" eq show ?thesis by simp
    qed
  qed
qed

lemma round_half_even_bounds:
  "0 < b \<Longrightarrow> n div b \<le> round_half_even n b \<and> round_half_even n b \<le> n div b + 1"
  by (simp add: round_half_even_def Let_def)

text \<open>
  On counters of 32 bits the float64 ratio is at least the float64 constant 0.6 exactly when
  the exact ratio is at least three fifths: a ratio below three fifths is below it by at
  least \<open>1 / (5 * 2 ^ 32)\<close>, far more than the spacing \<open>2 ^ -53\<close> of the float64 values there.
\<close>

lemma f64_div_ge_ratio:
  assumes b: "0 < b" and a32: "a < 2 ^ 32" and b32: "b < 2 ^ 32"
  shows "f64_ge (f64_div a b) maxFailureRatio \<longleftrightarrow> 3 * b \<le> 5 * a"
proof (cases "a = 0")
  case True
  with b show ?thesis by (simp add: f64_div_def maxFailureRatio_def)
next
  case False
  then have a: "0 < a" by simp
  define s where "s = binade_scale a b 0"
  define n where "n = a * 2 ^ s"
  define k where "k = n div b"
  define m where "m = round_half_even n b"
  have reached: "2 ^ 52 * b \<le> n"
    unfolding n_def s_def using binade_scale_reached[OF a] .
  have least: "a * 2 ^ t < 2 ^ 52 * b" if "t < s" for t
    using binade_scale_least[OF a _ that[unfolded s_def]] by simp
  have km: "k \<le> m" "m \<le> k + 1"
    unfolding k_def m_def using round_half_even_bounds[OF b, of n] by simp_all
  have k52: "2 ^ 52 \<le> k"
    unfolding k_def using reached b by (simp add: less_eq_div_iff_mult_less_eq)
  have ge: "f64_ge (f64_div a b) maxFailureRatio \<longleftrightarrow> 5404319552844595 * 2 ^ s \<le> m * 2 ^ 53"
    using b False by (simp add: f64_div_def maxFailureRatio_def Let_def s_def m_def n_def)
  consider (big) "s < 53" | (mid) "s = 53" | (small) "53 < s" by linarith
  then show ?thesis
  proof cases
    case big
    then have "(2::nat) ^ s \<le> 2 ^ 52" by (intro power_increasing) simp_all
    then have p: "a * 2 ^ s \<le> a * 2 ^ 52" by simp
    with reached have "2 ^ 52 * b \<le> a * 2 ^ 52" unfolding n_def by (rule order_trans)
    then have "b \<le> a" by simp
    then have rhs: "3 * b \<le> 5 * a" by simp
    have "5404319552844595 * (2::nat) ^ s \<le> 5404319552844595 * 2 ^ 52"
      using \<open>(2::nat) ^ s \<le> 2 ^ 52\<close> by simp
    also have "\<dots> \<le> 2 ^ 52 * 2 ^ 53" by simp
    also have "\<dots> \<le> m * 2 ^ 53" using k52 km(1) by simp
    finally show ?thesis using ge rhs by simp
  next
    case small
    from least[of 53] small have "a * 2 ^ 53 < 2 ^ 52 * b" by simp
    then have rhs: "\<not> 3 * b \<le> 5 * a" by simp
    from small obtain u where s: "s = Suc u" and u: "53 \<le> u" by (cases s) auto
    from least[of u] s have "a * 2 ^ u < 2 ^ 52 * b" by simp
    then have "n < 2 ^ 53 * b" unfolding n_def s by simp
    then have "k < 2 ^ 53" unfolding k_def using b by (simp add: div_less_iff_less_mult)
    with km(2) have m53: "m \<le> 2 ^ 53" by simp
    have "(2::nat) ^ 53 \<le> 2 ^ u" using u by (intro power_increasing) simp_all
    then have "(2::nat) ^ 54 \<le> 2 ^ s" unfolding s by simp
    then have "5404319552844595 * (2::nat) ^ 54 \<le> 5404319552844595 * 2 ^ s" by simp
    moreover have "m * 2 ^ 53 \<le> 2 ^ 53 * (2::nat) ^ 53" using m53 by simp
    moreover have "2 ^ 53 * (2::nat) ^ 53 < 5404319552844595 * 2 ^ 54" by simp
    ultimately have "m * 2 ^ 53 < 5404319552844595 * 2 ^ s" by linarith
    then show ?thesis using ge rhs by simp
  next
    case mid
    have n: "n = a * 9007199254740992" unfolding n_def mid by simp
    have ge': "f64_ge (f64_div a b) maxFailureRatio \<longleftrightarrow> 5404319552844595 \<le> m"
      using ge mid by simp
    show ?thesis
    proof (cases "3 * b \<le> 5 * a")
      case True
      then have "5404319552844595 * b \<le> n" unfolding n by simp
      then have "5404319552844595 \<le> k"
        unfolding k_def using b by (simp add: less_eq_div_iff_mult_less_eq)
      with km(1) True ge' show ?thesis by simp
    next
      case False
      with b32 have "n < 5404319552844594 * b" unfolding n by simp
      then have "k < 5404319552844594"
        unfolding k_def using b by (simp add: div_less_iff_less_mult)
      with km(2) False ge' show ?thesis by simp
    qed
  qed
qed

text \<open>
  The predicate that \<open>New\<close> gives to the breaker: at least 3 requests, of which at least three
  fifths failed.
\<close>

lemma ReadyToTrip_iff:
  "ReadyToTrip st counts \<longleftrightarrow>
     3 \<le> unat (Requests counts) \<and>
     3 * unat (Requests counts) \<le> 5 * unat (TotalFailures counts)"
proof (cases "3 \<le> unat (Requests counts)")
  case True
  then have "0 < unat (Requests counts)" by simp
  moreover have "unat (TotalFailures counts) < 2 ^ 32" "unat (Requests counts) < 2 ^ 32"
    using unsigned_less[of "TotalFailures counts"] unsigned_less[of "Requests counts"] by simp_all
  ultimately have "f64_ge (f64_div (unat (TotalFailures counts)) (unat (Requests counts)))
      maxFailureRatio \<longleftrightarrow> 3 * unat (Requests counts) \<le> 5 * unat (TotalFailures counts)"
    by (rule f64_div_ge_ratio)
  moreover have "maxFailedReqs \<le> Requests counts"
    using True by (simp add: maxFailedReqs_def word_le_nat_alt)
  ultimately show ?thesis using True by (simp add: st_def)
next
  case False
  then have "\<not> maxFailedReqs \<le> Requests counts"
    by (simp add: maxFailedReqs_def word_le_nat_alt)
  with False show ?thesis by (simp add: st_def)
qed

lemma ReadyToTrip_examples:
  "ReadyToTrip st \<lparr>Requests = 5, TotalSuccesses = 2, TotalFailures = 3,
                    ConsecutiveSuccesses = 0, ConsecutiveFailures = 1\<rparr> \<and>
   \<not> ReadyToTrip st \<lparr>Requests = 2, TotalSuccesses = 0, TotalFailures = 2,
                      ConsecutiveSuccesses = 0, ConsecutiveFailures = 2\<rparr> \<and>
   \<not> ReadyToTrip st \<lparr>Requests = 5000, TotalSuccesses = 2001, TotalFailures = 2999,
                      ConsecutiveSuccesses = 0, ConsecutiveFailures = 1\<rparr> \<and>
   f64_div 3 5 = Finite 5404319552844595 53 \<and>
   \<not> ReadyToTrip st \<lparr>Requests = 0, TotalSuccesses = 0, TotalFailures = 0,
                      ConsecutiveSuccesses = 0, ConsecutiveFailures = 0\<rparr>"
  by (simp add: st_def maxFailedReqs_def maxFailureRatio_def f64_div_def binade_scale.simps
        round_half_even_def)

text \<open>
  Claim C7. \<open>New\<close> builds a breaker with the predicate above and stores it in the publisher,
  but \<open>Publish\<close> never passes its call through it: whatever breaker the library builds or the
  publisher holds, \<open>Publish\<close> marshals the message and calls the connection; and four calls
  in a row on a connection that fails every time all reach the connection and return its
  error.
\<close>

theorem Publish_never_consults_breaker:
  "Publish marshal (New NewCircuitBreaker conn) msg =
     (case marshal msg of
        Inl err \<Rightarrow> (Some err, [])
      | Inr data \<Rightarrow>
          (conn (fmtSubject (Channel msg) (Subtopic msg)) data,
           [NcPublish (fmtSubject (Channel msg) (Subtopic msg)) data])) \<and>
   Publish marshal (pubsub\<lparr>cb := b\<rparr>) msg = Publish marshal pubsub msg \<and>
   Publish_all marshal_payload (New NewCircuitBreaker closed_connection)
     [ws_message, ws_message, ws_message, ws_message] =
     ([Some ''nats: connection closed'', Some ''nats: connection closed'',
       Some ''nats: connection closed'', Some ''nats: connection closed''],
      [NcPublish ''channel.ch-1'' [7], NcPublish ''channel.ch-1'' [7],
       NcPublish ''channel.ch-1'' [7], NcPublish ''channel.ch-1'' [7]])"
  by (simp add: Publish_def New_def fmtSubject_def prefix_channel_def ws_message_def
        marshal_payload_def closed_connection_def Let_def split: sum.splits)

end
